theory Spec2Isabelle
  imports Complex_Main
begin

section \<open>Single and double precision arithmetic\<close>

text \<open>
  The source computes with C++ \<^verbatim>\<open>float\<close> (IEEE 754 binary32) and, where a \<^verbatim>\<open>double\<close>
  literal is involved, with binary64. A finite floating-point value is a rational number, and
  each arithmetic operation returns the exact result rounded to the nearest representable value,
  ties to the even significand. Overflow to infinity and NaN are outside the model: the values
  the engine computes with are audio samples and the crossfade position.
\<close>

text \<open>The number of binary digits of a positive integer.\<close>

function bits :: "int \<Rightarrow> int" where
  "bits n = (if n \<le> 0 then 0 else 1 + bits (n div 2))"
  by pat_completeness auto
termination
  by (relation "measure nat") auto

definition pow2 :: "int \<Rightarrow> rat" where
  "pow2 k = (if 0 \<le> k then 2 ^ nat k else 1 / 2 ^ nat (- k))"

text \<open>The binary exponent of a positive rational: \<open>pow2 (ilog2 a) \<le> a < pow2 (ilog2 a + 1)\<close>.\<close>

definition ilog2 :: "rat \<Rightarrow> int" where
  "ilog2 a = (if 1 \<le> a then bits \<lfloor>a\<rfloor> - 1 else - bits (\<lceil>1 / a\<rceil> - 1))"

definition round_even :: "rat \<Rightarrow> int" where
  "round_even y =
     (let f = \<lfloor>y\<rfloor>; r = y - of_int f
      in if r < 1 / 2 then f else if 1 / 2 < r then f + 1
         else if even f then f else f + 1)"

text \<open>
  Rounding to a format with \<open>p\<close> significant bits and least normal exponent \<open>emin\<close>:
  the spacing of representable values around \<open>x\<close> is \<open>pow2 (e - p + 1)\<close>, where \<open>e\<close>
  is the exponent of \<open>x\<close>, not below \<open>emin\<close> (subnormal range).
\<close>

definition round_float :: "nat \<Rightarrow> int \<Rightarrow> rat \<Rightarrow> rat" where
  "round_float p emin x =
     (if x = 0 then 0
      else let e = max (ilog2 \<bar>x\<bar>) emin; u = pow2 (e - int p + 1)
           in of_int (round_even (x / u)) * u)"

definition f32 :: "rat \<Rightarrow> rat" where
  "f32 = round_float 24 (- 126)"

definition f64 :: "rat \<Rightarrow> rat" where
  "f64 = round_float 53 (- 1022)"

text \<open>Conversion of a non-negative \<^verbatim>\<open>float\<close> to \<^verbatim>\<open>size_t\<close> truncates.\<close>

definition size_of_float :: "rat \<Rightarrow> nat" where
  "size_of_float x = nat \<lfloor>x\<rfloor>"

text \<open>\<^verbatim>\<open>size_t\<close> is 32 bits wide on the target (ARM Cortex-M7); unsigned arithmetic wraps.\<close>

definition size_wrap :: "nat \<Rightarrow> nat" where
  "size_wrap n = n mod 2 ^ 32"

section \<open>Constants\<close>

definition kSampleRate :: rat where
  "kSampleRate = 48000"

definition kBufferSize :: nat where
  "kBufferSize = size_of_float (f32 (2 * kSampleRate))"

definition kFadeTime :: nat where
  "kFadeTime = 4800 * 2"

definition kFadeStep :: rat where
  "kFadeStep = f32 (1 / f32 (of_nat kFadeTime))"

definition kMinDelaySamps :: nat where
  "kMinDelaySamps = kFadeTime + 480"

definition kMaxDelaySamps :: nat where
  "kMaxDelaySamps = kBufferSize - 480"

definition kMinDelaySec :: rat where
  "kMinDelaySec = f32 (f32 (of_nat kMinDelaySamps) / kSampleRate)"

definition kMaxDelaySec :: rat where
  "kMaxDelaySec = f32 (f32 (of_nat kMaxDelaySamps) / kSampleRate)"

section \<open>Helpers\<close>

definition wrapDec :: "nat \<Rightarrow> nat" where
  "wrapDec x = (if x = 0 then kBufferSize - 1 else x - 1)"

definition wrapAdd :: "nat \<Rightarrow> nat \<Rightarrow> nat" where
  "wrapAdd a b = size_wrap (a + b) mod kBufferSize"

definition clampSize :: "nat \<Rightarrow> nat \<Rightarrow> nat \<Rightarrow> nat" where
  "clampSize v lo hi = (if v < lo then lo else (if v > hi then hi else v))"

section \<open>Segment engine\<close>

record Segment =
  head :: nat
  start :: nat
  len :: nat
  played :: nat
  active :: bool

text \<open>
  \<^verbatim>\<open>StartSegment\<close> writes the segment it is given and flips the static member
  \<^verbatim>\<open>Segment::aLag\<close>; the model takes the flag and returns it with the segment.
\<close>

definition StartSegment :: "Segment \<Rightarrow> nat \<Rightarrow> nat \<Rightarrow> bool \<Rightarrow> Segment \<times> bool" where
  "StartSegment s currentWrite l lag =
     (s\<lparr>len := l, played := 0, start := currentWrite, head := currentWrite, active := True\<rparr>,
      \<not> lag)"

definition DeactivateSegment :: "Segment \<Rightarrow> Segment" where
  "DeactivateSegment s = s\<lparr>head := 0, start := 0, len := 0, played := 0, active := False\<rparr>"

definition StepSegment :: "Segment \<Rightarrow> (nat \<Rightarrow> rat) \<Rightarrow> rat \<times> Segment" where
  "StepSegment s buf =
     (buf (head s), s\<lparr>head := wrapDec (head s), played := size_wrap (played s + 1)\<rparr>)"

section \<open>Engine state\<close>

text \<open>
  The globals of the program. \<open>xfade_pos\<close> is the position held by the library crossfader
  \<^verbatim>\<open>xfade\<close>, set by \<^verbatim>\<open>SetPos\<close> and read by \<^verbatim>\<open>Process\<close>.
\<close>

record engine =
  delayTimeSec :: rat
  feedback :: rat
  wetMix :: rat
  delayBuffer :: "nat \<Rightarrow> rat"
  writePos :: nat
  xfade_pos :: rat
  fade :: rat
  fadeCount :: nat
  fading :: bool
  fadeSwap :: bool
  segA :: Segment
  segB :: Segment
  aLag :: bool
  startup :: bool

definition zero_segment :: Segment where
  "zero_segment = \<lparr>head = 0, start = 0, len = 0, played = 0, active = False\<rparr>"

text \<open>
  The state when \<^verbatim>\<open>main\<close> starts the audio stream: the initialisers of the globals, with
  the crossfader position \<open>p\<close> left by the library's \<^verbatim>\<open>xfade.Init()\<close>.
\<close>

definition init_engine :: "rat \<Rightarrow> engine" where
  "init_engine p =
     \<lparr>delayTimeSec = f32 (1 / 4), feedback = 0, wetMix = f32 (1 / 2),
      delayBuffer = (\<lambda>i. 0), writePos = 0, xfade_pos = p,
      fade = 0, fadeCount = 0, fading = False, fadeSwap = False,
      segA = zero_segment, segB = zero_segment, aLag = True, startup = True\<rparr>"

text \<open>
  Modelled from the spec: the library call \<^verbatim>\<open>xfade.Process(yA, yB)\<close>, whose code is not part
  of the repository; the source comments it as \<open>(1 - fade) * yA + fade * yB\<close> and the
  specification names the linear blend.
\<close>

definition xfade_Process :: "rat \<Rightarrow> rat \<Rightarrow> rat \<Rightarrow> rat" where
  "xfade_Process pos in1 in2 = f32 (f32 (in1 * f32 (1 - pos)) + f32 (in2 * pos))"

section \<open>The per-sample pipeline\<close>

text \<open>What one iteration of the sample loop does to segments and buffer, in program order.\<close>

datatype seg_id = SegA | SegB

datatype event =
    Started seg_id nat nat
  | Stepped seg_id nat
  | Deactivated seg_id
  | Wrote nat

text \<open>Lines 106 to 112: the one-time start of segment A.\<close>

definition startup_phase :: "nat \<Rightarrow> engine \<Rightarrow> event list \<times> engine" where
  "startup_phase L s =
     (if startup s then
        (let a0 = DeactivateSegment (segA s);
             b0 = DeactivateSegment (segB s);
             (a1, lag) = StartSegment a0 (writePos s) L (aLag s)
         in ([Deactivated SegA, Deactivated SegB, Started SegA (writePos s) L],
             s\<lparr>segA := a1, segB := b0, aLag := lag, startup := False\<rparr>))
      else ([], s))"

text \<open>Lines 114 to 136: the four tests on the active flags, one after the other.\<close>

definition read_phase :: "engine \<Rightarrow> (rat \<times> rat) \<times> event list \<times> engine" where
  "read_phase s0 =
     (let (yA, yB, ev, s) = (0, 0, [], s0);
          (yA, yB, ev, s) =
            (if active (segA s) \<and> \<not> active (segB s) then
               (let (y, a) = StepSegment (segA s) (delayBuffer s)
                in (y, 0, ev @ [Stepped SegA (head (segA s))], s\<lparr>segA := a\<rparr>))
             else (yA, yB, ev, s));
          (yA, yB, ev, s) =
            (if active (segB s) \<and> \<not> active (segA s) then
               (let (y, b) = StepSegment (segB s) (delayBuffer s)
                in (0, y, ev @ [Stepped SegB (head (segB s))], s\<lparr>segB := b\<rparr>))
             else (yA, yB, ev, s));
          (yA, yB, ev, s) =
            (if active (segA s) \<and> active (segB s) then
               (let (y, a) = StepSegment (segA s) (delayBuffer s);
                    (z, b) = StepSegment (segB s) (delayBuffer s)
                in (y, z, ev @ [Stepped SegA (head (segA s)), Stepped SegB (head (segB s))],
                    s\<lparr>segA := a, segB := b\<rparr>))
             else (yA, yB, ev, s));
          (yA, yB, ev, s) =
            (if \<not> active (segA s) \<and> \<not> active (segB s) then (0, 0, ev, s)
             else (yA, yB, ev, s))
      in ((yA, yB), ev, s))"

text \<open>Lines 140 to 158: the crossfade ramp.\<close>

definition fade_phase :: "engine \<Rightarrow> engine" where
  "fade_phase s0 =
     (if fading s0 then
        (let s = s0\<lparr>xfade_pos := fade s0\<rparr>
         in if fadeCount s < kFadeTime then
              (let s = (if \<not> fadeSwap s then s\<lparr>fade := f32 (fade s + kFadeStep)\<rparr>
                        else s\<lparr>fade := f32 (fade s - kFadeStep)\<rparr>)
               in s\<lparr>fadeCount := size_wrap (fadeCount s + 1)\<rparr>)
            else s\<lparr>fading := False, fadeCount := 0, fadeSwap := (\<not> fadeSwap s)\<rparr>)
      else s0)"

text \<open>Lines 166 to 183: the handoff test on the segment chosen by \<open>aLag\<close>.\<close>

definition trigger_phase :: "nat \<Rightarrow> engine \<Rightarrow> event list \<times> engine" where
  "trigger_phase L s =
     (if aLag s then
        (if \<not> fading s \<and> size_wrap (played (segB s) + kFadeTime) \<ge> len (segB s) then
           (let (a, lag) = StartSegment (segA s) (writePos s) L (aLag s)
            in ([Started SegA (writePos s) L],
                s\<lparr>fading := True, fade := 1, segA := a, aLag := lag\<rparr>))
         else ([], s))
      else
        (if \<not> fading s \<and> size_wrap (played (segA s) + kFadeTime) \<ge> len (segA s) then
           (let (b, lag) = StartSegment (segB s) (writePos s) L (aLag s)
            in ([Started SegB (writePos s) L],
                s\<lparr>fading := True, fade := 0, segB := b, aLag := lag\<rparr>))
         else ([], s)))"

text \<open>Lines 185 to 192: retiring finished segments.\<close>

definition retire_phase :: "engine \<Rightarrow> event list \<times> engine" where
  "retire_phase s0 =
     (let (ev, s) =
            (if played (segA s0) \<ge> len (segA s0)
             then ([Deactivated SegA], s0\<lparr>segA := DeactivateSegment (segA s0)\<rparr>)
             else ([], s0))
      in if played (segB s) \<ge> len (segB s)
         then (ev @ [Deactivated SegB], s\<lparr>segB := DeactivateSegment (segB s)\<rparr>)
         else (ev, s))"

text \<open>Line 164: the input sample is stored at the write position.\<close>

definition write_phase :: "rat \<Rightarrow> engine \<Rightarrow> engine" where
  "write_phase x s = s\<lparr>delayBuffer := (delayBuffer s)(writePos s := x)\<rparr>"

text \<open>Line 194: the write position moves on, modulo the buffer size.\<close>

definition advance_phase :: "engine \<Rightarrow> engine" where
  "advance_phase s = s\<lparr>writePos := (writePos s + 1) mod kBufferSize\<rparr>"

text \<open>
  The body of the sample loop from line 106 on, for input sample \<open>x\<close>, with the delay length
  \<open>L\<close> that lines 103 and 104 compute and the calls of \<^verbatim>\<open>StartSegment\<close> convert to
  \<^verbatim>\<open>size_t\<close>. It returns the output sample, the events of the iteration and the new state.
\<close>

definition AudioSample_body :: "nat \<Rightarrow> rat \<Rightarrow> engine \<Rightarrow> rat \<times> event list \<times> engine" where
  "AudioSample_body L x s0 =
     (let (e1, s) = startup_phase L s0;
          ((yA, yB), e2, s) = read_phase s;
          s = fade_phase s;
          output = xfade_Process (xfade_pos s) yA yB;
          out = f32 (f64 (x + f64 (1 / 2 * output)));
          e3 = [Wrote (writePos s)];
          s = write_phase x s;
          (e4, s) = trigger_phase L s;
          (e5, s) = retire_phase s;
          s = advance_phase s
      in (out, e1 @ e2 @ e3 @ e4 @ e5, s))"

text \<open>Lines 103 and 104: the delay time is a constant expression, stored in the global.\<close>

definition delayTimeSec_const :: rat where
  "delayTimeSec_const = f32 (f32 (kMinDelaySec + f32 (kMaxDelaySec - kMinDelaySec)) * (1 / 2))"

definition AudioSample :: "rat \<Rightarrow> engine \<Rightarrow> rat \<times> event list \<times> engine" where
  "AudioSample x s0 =
     (let s = s0\<lparr>delayTimeSec := delayTimeSec_const\<rparr>;
          delayTimeSamp = f32 (delayTimeSec s * kSampleRate)
      in AudioSample_body (size_of_float delayTimeSamp) x s)"

text \<open>The sample loop over one block of input, with a given delay length and as compiled.\<close>

fun AudioCallback_with :: "nat \<Rightarrow> rat list \<Rightarrow> engine \<Rightarrow> (rat \<times> event list) list \<times> engine" where
  "AudioCallback_with L [] s = ([], s)"
| "AudioCallback_with L (x # xs) s =
     (let (y, ev, s1) = AudioSample_body L x s;
          (ys, s2) = AudioCallback_with L xs s1
      in ((y, ev) # ys, s2))"

fun AudioCallback :: "rat list \<Rightarrow> engine \<Rightarrow> (rat \<times> event list) list \<times> engine" where
  "AudioCallback [] s = ([], s)"
| "AudioCallback (x # xs) s =
     (let (y, ev, s1) = AudioSample x s;
          (ys, s2) = AudioCallback xs s1
      in ((y, ev) # ys, s2))"

text \<open>
  The polling loop of \<^verbatim>\<open>main\<close> stores three converter readings (16-bit values) in the control
  globals.
\<close>

definition main_poll :: "nat \<times> nat \<times> nat \<Rightarrow> engine \<Rightarrow> engine" where
  "main_poll adc s =
     (case adc of (adc0, adc1, adc2) \<Rightarrow>
        s\<lparr>delayTimeSec := f32 (f32 (of_nat adc0) / 65536),
          wetMix := f32 (f32 (of_nat adc1) / 65536),
          feedback := f32 (f32 (of_nat adc2) / 65536)\<rparr>)"

text \<open>A run in which \<^verbatim>\<open>main\<close> has polled the converters before each sample is processed.\<close>

fun polled_run :: "((nat \<times> nat \<times> nat) \<times> rat) list \<Rightarrow> engine \<Rightarrow> rat list \<times> engine" where
  "polled_run [] s = ([], s)"
| "polled_run ((adc, x) # rest) s =
     (let (y, ev, s1) = AudioSample x (main_poll adc s);
          (ys, s2) = polled_run rest s1
      in (y # ys, s2))"


section \<open>Runs and their properties\<close>

definition body_state :: "nat \<Rightarrow> rat \<Rightarrow> engine \<Rightarrow> engine" where
  "body_state L x s = snd (snd (AudioSample_body L x s))"

definition body_events :: "nat \<Rightarrow> rat \<Rightarrow> engine \<Rightarrow> event list" where
  "body_events L x s = fst (snd (AudioSample_body L x s))"

definition body_out :: "nat \<Rightarrow> rat \<Rightarrow> engine \<Rightarrow> rat" where
  "body_out L x s = fst (AudioSample_body L x s)"

text \<open>The state, the output samples and the events of a run over a list of input samples.\<close>

definition run_state :: "nat \<Rightarrow> rat list \<Rightarrow> engine \<Rightarrow> engine" where
  "run_state L xs s = snd (AudioCallback_with L xs s)"

definition run_outs :: "nat \<Rightarrow> rat list \<Rightarrow> engine \<Rightarrow> rat list" where
  "run_outs L xs s = map fst (fst (AudioCallback_with L xs s))"

definition run_events :: "nat \<Rightarrow> rat list \<Rightarrow> engine \<Rightarrow> event list list" where
  "run_events L xs s = map snd (fst (AudioCallback_with L xs s))"

text \<open>The buffer index an event uses, if any.\<close>

fun event_index :: "event \<Rightarrow> nat option" where
  "event_index (Started g i l) = Some i"
| "event_index (Stepped g i) = Some i"
| "event_index (Deactivated g) = None"
| "event_index (Wrote i) = Some i"

fun is_started :: "event \<Rightarrow> bool" where
  "is_started (Started g i l) = True"
| "is_started e = False"

fun is_stepped :: "event \<Rightarrow> bool" where
  "is_stepped (Stepped g i) = True"
| "is_stepped e = False"

fun seg :: "seg_id \<Rightarrow> engine \<Rightarrow> Segment" where
  "seg SegA s = segA s"
| "seg SegB s = segB s"

text \<open>
  The segment that the handoff test of line 166 reads is the one started last (\<open>lead\<close>); the
  other one (\<open>trail\<close>) is the one it starts.
\<close>

definition lead :: "engine \<Rightarrow> Segment" where
  "lead s = (if aLag s then segB s else segA s)"

definition trail :: "engine \<Rightarrow> Segment" where
  "trail s = (if aLag s then segA s else segB s)"

definition idx_ok :: "engine \<Rightarrow> bool" where
  "idx_ok s =
     (writePos s < kBufferSize \<and> head (segA s) < kBufferSize \<and> head (segB s) < kBufferSize)"

text \<open>
  The invariant of the scheduler between two samples, once the startup sample is done, and
  its forms after the segments are read, after the ramp has moved and after the handoff test.
\<close>

definition steady :: "nat \<Rightarrow> engine \<Rightarrow> bool" where
  "steady L s =
     (\<not> startup s \<and> active (lead s) \<and> len (lead s) = L \<and>
      (fading s \<longrightarrow>
         fadeCount s \<le> kFadeTime \<and> played (lead s) = fadeCount s \<and> fadeSwap s \<noteq> aLag s) \<and>
      (\<not> fading s \<longrightarrow>
         fadeCount s = 0 \<and> played (lead s) + kFadeTime < L \<and> fadeSwap s = aLag s) \<and>
      (active (trail s) \<longrightarrow>
         fading s \<and> len (trail s) = L \<and> played (trail s) < L \<and>
         L + fadeCount s \<le> played (trail s) + kFadeTime) \<and>
      (\<not> active (trail s) \<longrightarrow> trail s = zero_segment))"

definition stepped :: "nat \<Rightarrow> engine \<Rightarrow> bool" where
  "stepped L s =
     (\<not> startup s \<and> active (lead s) \<and> len (lead s) = L \<and>
      (fading s \<longrightarrow>
         fadeCount s \<le> kFadeTime \<and> played (lead s) = fadeCount s + 1 \<and> fadeSwap s \<noteq> aLag s) \<and>
      (\<not> fading s \<longrightarrow>
         fadeCount s = 0 \<and> played (lead s) + kFadeTime \<le> L \<and> fadeSwap s = aLag s) \<and>
      (active (trail s) \<longrightarrow>
         fading s \<and> len (trail s) = L \<and> played (trail s) \<le> L \<and>
         L + fadeCount s + 1 \<le> played (trail s) + kFadeTime) \<and>
      (\<not> active (trail s) \<longrightarrow> trail s = zero_segment))"

definition faded :: "nat \<Rightarrow> engine \<Rightarrow> bool" where
  "faded L s =
     (\<not> startup s \<and> active (lead s) \<and> len (lead s) = L \<and>
      (fading s \<longrightarrow>
         fadeCount s \<le> kFadeTime \<and> played (lead s) = fadeCount s \<and> fadeSwap s \<noteq> aLag s) \<and>
      (\<not> fading s \<longrightarrow>
         fadeCount s = 0 \<and> played (lead s) \<le> L \<and>
         (played (lead s) + kFadeTime \<le> L \<or> played (lead s) = kFadeTime + 1) \<and>
         fadeSwap s = aLag s) \<and>
      (active (trail s) \<longrightarrow>
         fading s \<and> len (trail s) = L \<and> played (trail s) \<le> L \<and>
         L + fadeCount s \<le> played (trail s) + kFadeTime) \<and>
      (\<not> active (trail s) \<longrightarrow> trail s = zero_segment))"

definition triggered :: "nat \<Rightarrow> engine \<Rightarrow> bool" where
  "triggered L s =
     (\<not> startup s \<and> active (lead s) \<and> len (lead s) = L \<and>
      (fading s \<longrightarrow>
         fadeCount s \<le> kFadeTime \<and> played (lead s) = fadeCount s \<and> fadeSwap s \<noteq> aLag s) \<and>
      (\<not> fading s \<longrightarrow>
         fadeCount s = 0 \<and> played (lead s) + kFadeTime < L \<and> fadeSwap s = aLag s) \<and>
      (active (trail s) \<longrightarrow>
         fading s \<and> len (trail s) = L \<and> played (trail s) \<le> L \<and>
         L + fadeCount s \<le> played (trail s) + kFadeTime) \<and>
      (\<not> active (trail s) \<longrightarrow> trail s = zero_segment))"

text \<open>The states inside one sample: after the startup test, before the handoff test and
  before the retire test.\<close>

definition pre_read :: "nat \<Rightarrow> engine \<Rightarrow> engine" where
  "pre_read L s = snd (startup_phase L s)"

definition pre_trigger :: "nat \<Rightarrow> rat \<Rightarrow> engine \<Rightarrow> engine" where
  "pre_trigger L x s = write_phase x (fade_phase (snd (snd (read_phase (pre_read L s)))))"

definition pre_retire :: "nat \<Rightarrow> rat \<Rightarrow> engine \<Rightarrow> engine" where
  "pre_retire L x s = snd (trigger_phase L (pre_trigger L x s))"

text \<open>An event's buffer index is in range.\<close>

definition index_in_range :: "event \<Rightarrow> bool" where
  "index_in_range e = (case event_index e of None \<Rightarrow> True | Some i \<Rightarrow> i < kBufferSize)"

definition events_in_range :: "event list \<Rightarrow> bool" where
  "events_in_range ev = list_all index_in_range ev"




text \<open>
  The state \<open>n\<close> samples after startup while segment A plays alone, and the number of
  segment starts in the events of a run.
\<close>

definition warm :: "nat \<Rightarrow> nat \<Rightarrow> engine \<Rightarrow> bool" where
  "warm L n s =
     (\<not> startup s \<and> \<not> aLag s \<and> \<not> fading s \<and> fadeCount s = 0 \<and> \<not> fadeSwap s \<and>
      fade s = 0 \<and> writePos s = n \<and> segB s = zero_segment \<and>
      segA s = \<lparr>head = kBufferSize - n, start = 0, len = L, played = n, active = True\<rparr>)"

definition starts_of :: "event list list \<Rightarrow> nat" where
  "starts_of evs = length (filter is_started (concat evs))"

text \<open>
  The control globals set to given values, and cleared; a segment start with a length within
  the guardrails.
\<close>

definition set_controls :: "rat \<Rightarrow> rat \<Rightarrow> rat \<Rightarrow> engine \<Rightarrow> engine" where
  "set_controls d w f s = s\<lparr>delayTimeSec := d, wetMix := w, feedback := f\<rparr>"

definition clear_controls :: "engine \<Rightarrow> engine" where
  "clear_controls s = set_controls 0 0 0 s"

fun start_len_ok :: "event \<Rightarrow> bool" where
  "start_len_ok (Started g i l) = (kMinDelaySamps \<le> l \<and> l \<le> kMaxDelaySamps)"
| "start_len_ok e = True"

text \<open>
  The buffer holds zeros only; the number of samples since an index was written, given the
  write position; the buffer holds zeros at all indices written within the last \<open>n\<close>
  samples.
\<close>

definition buf_zero :: "engine \<Rightarrow> bool" where
  "buf_zero s = list_all (\<lambda>i. delayBuffer s i = 0) [0..<kBufferSize]"

definition age :: "nat \<Rightarrow> nat \<Rightarrow> nat" where
  "age w i = (if i < w then w - i else w + kBufferSize - i)"

definition zeroed :: "nat \<Rightarrow> engine \<Rightarrow> bool" where
  "zeroed n s =
     list_all (\<lambda>i. age (writePos s) i \<le> n \<longrightarrow> delayBuffer s i = 0) [0..<kBufferSize]"





section \<open>Constants and helpers\<close>

lemma f32_buffer_size: "f32 (2 * kSampleRate) = 96000"
  by code_simp

lemma kBufferSize_val: "kBufferSize = 96000"
  by (simp add: kBufferSize_def f32_buffer_size size_of_float_def)

lemma kFadeTime_val: "kFadeTime = 9600"
  by (simp add: kFadeTime_def)

lemma f32_zero: "f32 0 = 0"
  by (simp add: f32_def round_float_def)

lemma f64_zero: "f64 0 = 0"
  by (simp add: f64_def round_float_def)

lemma size_wrap_id: "n < 4294967296 \<Longrightarrow> size_wrap n = n"
  by (simp add: size_wrap_def)

lemma wrapDec_less: "x < kBufferSize \<Longrightarrow> wrapDec x < kBufferSize"
  by (auto simp: wrapDec_def kBufferSize_val)

section \<open>Rounding\<close>

declare bits.simps [simp del]















section \<open>The phases of one sample\<close>

lemma read_phase_eq:
  "read_phase s =
     ((if active (segA s) then delayBuffer s (head (segA s)) else 0,
       if active (segB s) then delayBuffer s (head (segB s)) else 0),
      (if active (segA s) then [Stepped SegA (head (segA s))] else []) @
      (if active (segB s) then [Stepped SegB (head (segB s))] else []),
      s\<lparr>segA := (if active (segA s) then snd (StepSegment (segA s) (delayBuffer s)) else segA s),
        segB := (if active (segB s) then snd (StepSegment (segB s) (delayBuffer s)) else segB s)\<rparr>)"
  by (simp add: read_phase_def StepSegment_def)

lemma body_state_eq:
  "body_state L x s =
     advance_phase (snd (retire_phase (snd (trigger_phase L (write_phase x
       (fade_phase (snd (snd (read_phase (snd (startup_phase L s)))))))))))"
  by (simp add: body_state_def AudioSample_body_def Let_def split: prod.splits)

lemma startup_phase_done: "\<not> startup s \<Longrightarrow> startup_phase L s = ([], s)"
  by (simp add: startup_phase_def)

subsection \<open>Buffer indices\<close>

lemma startup_idx: "idx_ok s \<Longrightarrow> idx_ok (snd (startup_phase L s))"
  by (simp add: idx_ok_def startup_phase_def StartSegment_def DeactivateSegment_def)

lemma read_idx: "idx_ok s \<Longrightarrow> idx_ok (snd (snd (read_phase s)))"
  by (simp add: idx_ok_def read_phase_eq StepSegment_def wrapDec_less)

lemma fade_idx: "idx_ok s \<Longrightarrow> idx_ok (fade_phase s)"
  by (simp add: idx_ok_def fade_phase_def Let_def)

lemma write_idx: "idx_ok s \<Longrightarrow> idx_ok (write_phase x s)"
  by (simp add: idx_ok_def write_phase_def)

lemma trigger_idx: "idx_ok s \<Longrightarrow> idx_ok (snd (trigger_phase L s))"
  by (simp add: idx_ok_def trigger_phase_def StartSegment_def)

lemma retire_idx: "idx_ok s \<Longrightarrow> idx_ok (snd (retire_phase s))"
  by (simp add: idx_ok_def retire_phase_def DeactivateSegment_def Let_def kBufferSize_val)

lemma advance_idx: "idx_ok s \<Longrightarrow> idx_ok (advance_phase s)"
  by (simp add: idx_ok_def advance_phase_def kBufferSize_val)

lemma body_idx_ok: "idx_ok s \<Longrightarrow> idx_ok (body_state L x s)"
  by (simp add: body_state_eq startup_idx read_idx fade_idx write_idx trigger_idx retire_idx
      advance_idx)

subsection \<open>The scheduler invariant\<close>

lemma steady_read:
  assumes "steady L s" "kFadeTime < L" "L < 4294967296"
  shows "stepped L (snd (snd (read_phase s)))"
  using assms unfolding steady_def stepped_def lead_def trail_def read_phase_eq
  by (auto simp: StepSegment_def zero_segment_def size_wrap_id kFadeTime_val split: if_splits)

lemma stepped_fade:
  assumes "stepped L s" "kFadeTime < L"
  shows "faded L (fade_phase s)"
  using assms unfolding stepped_def faded_def lead_def trail_def fade_phase_def
  by (auto simp: Let_def size_wrap_id kFadeTime_val split: if_splits)

lemma faded_write: "faded L s \<Longrightarrow> faded L (write_phase x s)"
  by (auto simp: faded_def lead_def trail_def write_phase_def split: if_splits)

lemma faded_trigger:
  assumes "faded L s" "kFadeTime < L" "L < 4294967296"
  shows "triggered L (snd (trigger_phase L s))"
  using assms unfolding faded_def triggered_def lead_def trail_def trigger_phase_def
  by (auto simp: StartSegment_def zero_segment_def size_wrap_id kFadeTime_val split: if_splits)

lemma triggered_retire:
  assumes "triggered L s" "kFadeTime < L"
  shows "steady L (snd (retire_phase s))"
  using assms unfolding triggered_def steady_def lead_def trail_def retire_phase_def
  by (auto simp: DeactivateSegment_def zero_segment_def Let_def kFadeTime_val split: if_splits)

lemma steady_advance: "steady L s \<Longrightarrow> steady L (advance_phase s)"
  by (auto simp: steady_def lead_def trail_def advance_phase_def split: if_splits)

lemma startup_phase_steady:
  assumes "startup s" "\<not> fading s" "fadeCount s = 0" "\<not> fadeSwap s" "aLag s" "kFadeTime < L"
  shows "steady L (snd (startup_phase L s))"
  using assms
  by (simp add: startup_phase_def steady_def lead_def trail_def StartSegment_def
      DeactivateSegment_def zero_segment_def)

lemma steady_pipeline:
  assumes "steady L s" "kFadeTime < L" "L < 4294967296"
  shows "steady L (advance_phase (snd (retire_phase (snd (trigger_phase L (write_phase x
       (fade_phase (snd (snd (read_phase s))))))))))"
  by (intro steady_advance triggered_retire faded_trigger faded_write stepped_fade steady_read
      assms)

lemma steady_body:
  assumes "steady L s" "kFadeTime < L" "L < 4294967296"
  shows "steady L (body_state L x s)"
proof -
  from assms(1) have "\<not> startup s" by (simp add: steady_def)
  then show ?thesis
    by (simp add: body_state_eq startup_phase_done steady_pipeline assms)
qed

lemma init_body_steady:
  assumes "kFadeTime < L" "L < 4294967296"
  shows "steady L (body_state L x (init_engine p))"
proof -
  have "steady L (snd (startup_phase L (init_engine p)))"
    by (rule startup_phase_steady) (simp_all add: init_engine_def assms)
  then show ?thesis
    by (simp add: body_state_eq steady_pipeline assms)
qed

subsection \<open>Runs\<close>

lemma body_state_pre: "body_state L x s = advance_phase (snd (retire_phase (pre_retire L x s)))"
  by (simp add: body_state_eq pre_retire_def pre_trigger_def pre_read_def)

lemma body_events_eq:
  "body_events L x s =
     fst (startup_phase L s) @ fst (snd (read_phase (pre_read L s))) @
     [Wrote (writePos (pre_trigger L x s))] @ fst (trigger_phase L (pre_trigger L x s)) @
     fst (retire_phase (pre_retire L x s))"
  by (simp add: body_events_def AudioSample_body_def pre_retire_def pre_trigger_def pre_read_def
      write_phase_def Let_def split: prod.splits)

lemma run_state_Nil: "run_state L [] s = s"
  by (simp add: run_state_def)

lemma run_state_Cons: "run_state L (x # xs) s = run_state L xs (body_state L x s)"
  by (simp add: run_state_def body_state_def split: prod.splits)

lemma run_state_append: "run_state L (xs @ ys) s = run_state L ys (run_state L xs s)"
  by (induction xs arbitrary: s) (simp_all add: run_state_Nil run_state_Cons)

lemma run_state_snoc: "run_state L (xs @ [x]) s = body_state L x (run_state L xs s)"
  by (simp add: run_state_append run_state_Cons run_state_Nil)

lemma run_events_Nil: "run_events L [] s = []"
  by (simp add: run_events_def)

lemma run_events_Cons:
  "run_events L (x # xs) s = body_events L x s # run_events L xs (body_state L x s)"
  by (simp add: run_events_def body_events_def body_state_def split: prod.splits)

lemma run_outs_Nil: "run_outs L [] s = []"
  by (simp add: run_outs_def)

lemma run_outs_Cons:
  "run_outs L (x # xs) s = body_out L x s # run_outs L xs (body_state L x s)"
  by (simp add: run_outs_def body_out_def body_state_def split: prod.splits)

lemma run_idx_ok: "idx_ok s \<Longrightarrow> idx_ok (run_state L xs s)"
  by (induction xs arbitrary: s) (simp_all add: run_state_Nil run_state_Cons body_idx_ok)

lemma init_idx_ok: "idx_ok (init_engine p)"
  by (simp add: idx_ok_def init_engine_def zero_segment_def kBufferSize_val)

lemma pre_read_idx: "idx_ok s \<Longrightarrow> idx_ok (pre_read L s)"
  by (simp add: pre_read_def startup_idx)

lemma pre_trigger_idx: "idx_ok s \<Longrightarrow> idx_ok (pre_trigger L x s)"
  by (simp add: pre_trigger_def write_idx fade_idx read_idx pre_read_idx)

lemma events_in_range_append [simp]:
  "events_in_range (a @ b) = (events_in_range a \<and> events_in_range b)"
  by (simp add: events_in_range_def)

lemma startup_events_idx: "idx_ok s \<Longrightarrow> events_in_range (fst (startup_phase L s))"
  by (simp add: events_in_range_def index_in_range_def idx_ok_def startup_phase_def
      StartSegment_def)

lemma read_events_idx: "idx_ok s \<Longrightarrow> events_in_range (fst (snd (read_phase s)))"
  by (simp add: events_in_range_def index_in_range_def idx_ok_def read_phase_eq)

lemma trigger_events_idx: "idx_ok s \<Longrightarrow> events_in_range (fst (trigger_phase L s))"
  by (simp add: events_in_range_def index_in_range_def idx_ok_def trigger_phase_def
      StartSegment_def)

lemma retire_events_idx: "events_in_range (fst (retire_phase s))"
  by (simp add: events_in_range_def index_in_range_def retire_phase_def Let_def)

lemma write_event_idx: "idx_ok s \<Longrightarrow> events_in_range [Wrote (writePos s)]"
  by (simp add: events_in_range_def index_in_range_def idx_ok_def)

lemma body_events_idx: "idx_ok s \<Longrightarrow> events_in_range (body_events L x s)"
  unfolding body_events_eq events_in_range_append
  by (intro conjI startup_events_idx read_events_idx trigger_events_idx retire_events_idx
      write_event_idx pre_read_idx pre_trigger_idx)

lemma run_events_idx: "idx_ok s \<Longrightarrow> list_all events_in_range (run_events L xs s)"
  by (induction xs arbitrary: s)
    (simp_all add: run_events_Nil run_events_Cons body_events_idx body_idx_ok)

subsection \<open>Index safety\<close>

text \<open>
  C7: in every state reached from the initial state, for any delay length and any input, the
  write position and both segment heads are below the buffer size, and so is every index
  that a sample's reads, write and segment starts use: a start takes the write position,
  a step decrements the head with wraparound from 0 to the last index, and the write
  position advances modulo the buffer size.
\<close>

theorem index_safety:
  "idx_ok (run_state L xs (init_engine p)) \<and>
   list_all events_in_range (run_events L xs (init_engine p))"
  by (simp add: run_idx_ok run_events_idx init_idx_ok)

subsection \<open>No silent gap\<close>

lemma run_steady:
  assumes "kFadeTime < L" "L < 4294967296" "xs \<noteq> []"
  shows "steady L (run_state L xs (init_engine p))"
  using assms(3)
proof (induction xs rule: rev_induct)
  case Nil
  then show ?case by simp
next
  case (snoc x ys)
  show ?case
  proof (cases "ys = []")
    case True
    then show ?thesis
      by (simp add: run_state_Cons run_state_Nil init_body_steady assms)
  next
    case False
    then show ?thesis
      by (simp add: run_state_snoc steady_body snoc.IH assms)
  qed
qed

lemma steady_lead_active: "steady L s \<Longrightarrow> active (segA s) \<or> active (segB s)"
  by (cases "aLag s") (simp_all add: steady_def lead_def)

lemma read_steps_active:
  "active (segA s) \<or> active (segB s) \<Longrightarrow> list_ex is_stepped (fst (snd (read_phase s)))"
  by (auto simp: read_phase_eq)

lemma body_steps:
  "active (segA (pre_read L s)) \<or> active (segB (pre_read L s)) \<Longrightarrow>
   list_ex is_stepped (body_events L x s)"
  by (simp add: body_events_eq read_steps_active)

lemma steady_body_steps: "steady L s \<Longrightarrow> list_ex is_stepped (body_events L x s)"
proof -
  assume st: "steady L s"
  then have "\<not> startup s" by (simp add: steady_def)
  with st show ?thesis
    by (intro body_steps) (simp add: pre_read_def startup_phase_done steady_lead_active)
qed

lemma init_body_steps: "list_ex is_stepped (body_events L x (init_engine p))"
  by (rule body_steps)
    (simp add: pre_read_def startup_phase_def init_engine_def StartSegment_def)

lemma steady_run_steps:
  assumes "kFadeTime < L" "L < 4294967296"
  shows "steady L s \<Longrightarrow> list_all (list_ex is_stepped) (run_events L xs s)"
  by (induction xs arbitrary: s)
    (simp_all add: run_events_Nil run_events_Cons steady_body_steps steady_body assms)

lemma init_run_steps:
  assumes "kFadeTime < L" "L < 4294967296"
  shows "list_all (list_ex is_stepped) (run_events L xs (init_engine p))"
  by (cases xs)
    (simp_all add: run_events_Nil run_events_Cons init_body_steps steady_run_steps
      init_body_steady assms)

text \<open>
  C6: with a delay length above the fade window (and within \<^verbatim>\<open>size_t\<close>), after any
  non-empty run from the initial state at least one of the two segments is active, and
  every sample of the run has read the buffer through at least one segment: the wet path is
  never fed by two inactive segments.
\<close>

theorem no_silent_gap:
  assumes "kFadeTime < L" "L < 2 ^ 32" "xs \<noteq> []"
  shows "(active (segA (run_state L xs (init_engine p))) \<or>
          active (segB (run_state L xs (init_engine p)))) \<and>
         list_all (list_ex is_stepped) (run_events L xs (init_engine p))"
proof -
  from assms have L: "L < 4294967296" by simp
  have "steady L (run_state L xs (init_engine p))"
    using assms(1) L assms(3) by (rule run_steady)
  then have "active (segA (run_state L xs (init_engine p))) \<or>
             active (segB (run_state L xs (init_engine p)))"
    by (rule steady_lead_active)
  moreover have "list_all (list_ex is_stepped) (run_events L xs (init_engine p))"
    using assms(1) L by (rule init_run_steps)
  ultimately show ?thesis by simp
qed

theorem no_silent_gap_witness:
  "kFadeTime < 12000 \<and> (12000 :: nat) < 2 ^ 32 \<and> [0, 0 :: rat] \<noteq> [] \<and>
   (active (segA (run_state 12000 [0, 0] (init_engine (1 / 2)))) \<or>
    active (segB (run_state 12000 [0, 0] (init_engine (1 / 2))))) \<and>
   list_all (list_ex is_stepped) (run_events 12000 [0, 0] (init_engine (1 / 2)))"
  using no_silent_gap [of 12000 "[0, 0]" "1 / 2"] by (simp add: kFadeTime_val)

subsection \<open>Segment start and the lead/lag flag\<close>

lemma StartSegment_eq:
  "StartSegment g w l lag =
     (\<lparr>head = w, start = w, len = l, played = 0, active = True\<rparr>, \<not> lag)"
  by (cases g) (simp add: StartSegment_def)

lemma startup_flag:
  "aLag (snd (startup_phase L s)) =
     (aLag s = even (length (filter is_started (fst (startup_phase L s)))))"
  by (simp add: startup_phase_def StartSegment_def)

lemma trigger_flag:
  "aLag (snd (trigger_phase L s)) =
     (aLag s = even (length (filter is_started (fst (trigger_phase L s)))))"
  by (simp add: trigger_phase_def StartSegment_def)

lemma read_no_start: "filter is_started (fst (snd (read_phase s))) = []"
  by (simp add: read_phase_eq)

lemma retire_no_start: "filter is_started (fst (retire_phase s)) = []"
  by (simp add: retire_phase_def Let_def)

lemma read_aLag: "aLag (snd (snd (read_phase s))) = aLag s"
  by (simp add: read_phase_eq)

lemma fade_aLag: "aLag (fade_phase s) = aLag s"
  by (simp add: fade_phase_def Let_def)

lemma retire_aLag: "aLag (snd (retire_phase s)) = aLag s"
  by (simp add: retire_phase_def Let_def)

lemma pre_trigger_aLag: "aLag (pre_trigger L x s) = aLag (snd (startup_phase L s))"
  by (simp add: pre_trigger_def pre_read_def write_phase_def fade_aLag read_aLag)

lemma body_flag:
  "aLag (body_state L x s) =
     (aLag s = even (length (filter is_started (body_events L x s))))"
  by (simp add: body_state_pre body_events_eq advance_phase_def retire_aLag pre_retire_def
      trigger_flag pre_trigger_aLag startup_flag read_no_start retire_no_start)
    blast

text \<open>
  C9: a segment start, whatever the segment was before, leaves it with head and start at the
  given index, the given length, nothing played and active, and flips the flag once. Over one
  sample the flag is flipped once per start event of that sample, so it is unchanged when
  there is none.
\<close>

theorem start_segment_and_flag:
  "StartSegment g w l lag =
     (\<lparr>head = w, start = w, len = l, played = 0, active = True\<rparr>, \<not> lag) \<and>
   aLag (body_state L x s) =
     (aLag s = even (length (filter is_started (body_events L x s))))"
  by (simp add: StartSegment_eq body_flag)

subsection \<open>Segment expiry\<close>

lemma read_seg:
  "seg g (snd (snd (read_phase s))) =
     (if active (seg g s) then snd (StepSegment (seg g s) (delayBuffer s)) else seg g s)"
  by (cases g) (simp_all add: read_phase_eq)

lemma fade_seg: "seg g (fade_phase s) = seg g s"
  by (cases g) (simp_all add: fade_phase_def Let_def)

lemma write_seg: "seg g (write_phase x s) = seg g s"
  by (cases g) (simp_all add: write_phase_def)

lemma advance_seg: "seg g (advance_phase s) = seg g s"
  by (cases g) (simp_all add: advance_phase_def)

lemma retire_seg:
  "seg g (snd (retire_phase t)) =
     (if len (seg g t) \<le> played (seg g t) then DeactivateSegment (seg g t) else seg g t)"
  by (cases g) (simp_all add: retire_phase_def Let_def)

lemma retire_events:
  "(Deactivated g \<in> set (fst (retire_phase t))) = (len (seg g t) \<le> played (seg g t))"
  by (cases g) (simp_all add: retire_phase_def Let_def)

lemma trigger_keeps:
  assumes "faded L t" "active (seg g t)"
  shows "seg g (snd (trigger_phase L t)) = seg g t"
  using assms
  by (cases g)
    (auto simp: faded_def lead_def trail_def trigger_phase_def StartSegment_def zero_segment_def
      split: if_splits)

lemma steady_pre_trigger:
  assumes "steady L s" "kFadeTime < L" "L < 4294967296"
  shows "faded L (pre_trigger L x s)"
proof -
  from assms(1) have "\<not> startup s" by (simp add: steady_def)
  then show ?thesis
    by (simp add: pre_trigger_def pre_read_def startup_phase_done faded_write stepped_fade
        steady_read assms)
qed

lemma steady_active_bounds:
  assumes "steady L s" "kFadeTime < L" "active (seg g s)"
  shows "len (seg g s) = L \<and> played (seg g s) < L"
  using assms
  by (cases g; cases "aLag s"; cases "fading s") (auto simp: steady_def lead_def trail_def)

lemma steady_active_step:
  assumes "steady L s" "kFadeTime < L" "L < 4294967296" "active (seg g s)"
  shows "seg g (body_state L x s) =
     (if played (seg g s) + 1 = L then zero_segment
      else (seg g s)\<lparr>head := wrapDec (head (seg g s)), played := played (seg g s) + 1\<rparr>)"
proof -
  from assms(1) have ns: "\<not> startup s" by (simp add: steady_def)
  from steady_active_bounds[OF assms(1,2,4)]
  have b: "len (seg g s) = L" "played (seg g s) < L" by simp_all
  have pt: "seg g (pre_trigger L x s) =
              (seg g s)\<lparr>head := wrapDec (head (seg g s)), played := played (seg g s) + 1\<rparr>"
    using assms(3,4) b ns
    by (simp add: pre_trigger_def pre_read_def startup_phase_done write_seg fade_seg read_seg
        StepSegment_def size_wrap_id)
  have "seg g (pre_retire L x s) = seg g (pre_trigger L x s)"
    unfolding pre_retire_def
    by (rule trigger_keeps[OF steady_pre_trigger[OF assms(1,2,3)]]) (simp add: pt assms(4))
  then show ?thesis
    using b by (auto simp: body_state_pre advance_seg retire_seg pt DeactivateSegment_def
        zero_segment_def)
qed

lemma body_deactivated:
  assumes "\<not> startup s" "Deactivated g \<in> set (body_events L x s)"
  shows "len (seg g (pre_retire L x s)) \<le> played (seg g (pre_retire L x s))"
  using assms
  by (auto simp: body_events_eq startup_phase_done read_phase_eq trigger_phase_def
      StartSegment_def retire_events split: if_splits)

text \<open>
  C8: in a run with a delay length \<open>L\<close> above the fade window, every active segment has
  length \<open>L\<close> and has played fewer than \<open>L\<close> samples; the next sample deactivates it
  exactly when its played count reaches \<open>L\<close> on that sample, and otherwise only steps it.
  After the startup sample a segment is deactivated only by the retire test, which fires
  exactly when the played count is at least the length.
\<close>

theorem segment_expiry:
  assumes "kFadeTime < L" "L < 2 ^ 32" "xs \<noteq> []" "s = run_state L xs (init_engine p)"
    and "active (seg g s)"
  shows "len (seg g s) = L \<and> played (seg g s) < L \<and>
         seg g (body_state L x s) =
           (if played (seg g s) + 1 = L then zero_segment
            else (seg g s)\<lparr>head := wrapDec (head (seg g s)), played := played (seg g s) + 1\<rparr>) \<and>
         (\<forall>h. Deactivated h \<in> set (body_events L x s) \<longrightarrow>
              len (seg h (pre_retire L x s)) \<le> played (seg h (pre_retire L x s))) \<and>
         (\<forall>t h. (Deactivated h \<in> set (fst (retire_phase t))) = (len (seg h t) \<le> played (seg h t)))"
proof -
  from assms have L: "L < 4294967296" by simp
  have st: "steady L s"
    unfolding assms(4) using assms(1) L assms(3) by (rule run_steady)
  then have ns: "\<not> startup s" by (simp add: steady_def)
  show ?thesis
    using steady_active_bounds[OF st assms(1,5)] steady_active_step[OF st assms(1) L assms(5)]
      body_deactivated[OF ns] retire_events
    by blast
qed


lemmas phase_defs = startup_phase_def read_phase_eq fade_phase_def write_phase_def
  trigger_phase_def retire_phase_def advance_phase_def StartSegment_def DeactivateSegment_def
  StepSegment_def zero_segment_def

lemma first_sample_segA:
  "segA (body_state 12000 0 (init_engine (1 / 2))) =
     \<lparr>head = 95999, start = 0, len = 12000, played = 1, active = True\<rparr>"
  by (simp add: body_state_eq phase_defs init_engine_def Let_def kFadeTime_val kBufferSize_val
      wrapDec_def size_wrap_id)

theorem segment_expiry_witness:
  "kFadeTime < 12000 \<and> (12000 :: nat) < 2 ^ 32 \<and> [0 :: rat] \<noteq> [] \<and>
   active (seg SegA (run_state 12000 [0] (init_engine (1 / 2)))) \<and>
   len (seg SegA (run_state 12000 [0] (init_engine (1 / 2)))) = 12000 \<and>
   played (seg SegA (run_state 12000 [0] (init_engine (1 / 2)))) < 12000 \<and>
   seg SegA (body_state 12000 0 (run_state 12000 [0] (init_engine (1 / 2)))) =
     \<lparr>head = 95998, start = 0, len = 12000, played = 2, active = True\<rparr>"
  using segment_expiry [of 12000 "[0]" "run_state 12000 [0] (init_engine (1 / 2))" "1 / 2" SegA 0]
  by (simp add: kFadeTime_val run_state_Cons run_state_Nil first_sample_segA wrapDec_def)

subsection \<open>The delay length of the program\<close>

lemma f32_delay_samples:
  "f32 (f32 (f32 (f32 (f32 10080 / 48000) + f32 (f32 (f32 95520 / 48000) - f32 (f32 10080 / 48000)))
     / 2) * 48000) = 47760"
  by code_simp

lemma delayTimeSamp_val: "size_of_float (f32 (delayTimeSec_const * kSampleRate)) = 47760"
  by (simp add: delayTimeSec_const_def kMinDelaySec_def kMaxDelaySec_def kMinDelaySamps_def
      kMaxDelaySamps_def kFadeTime_val kBufferSize_val kSampleRate_def f32_delay_samples
      size_of_float_def)

lemma AudioSample_eq:
  "AudioSample x s = AudioSample_body 47760 x (s\<lparr>delayTimeSec := delayTimeSec_const\<rparr>)"
  by (simp add: AudioSample_def Let_def delayTimeSamp_val)

subsection \<open>Order of the events of one sample\<close>













subsection \<open>The handoff test\<close>

lemma run_events_append:
  "run_events L (xs @ ys) s = run_events L xs s @ run_events L ys (run_state L xs s)"
  by (induction xs arbitrary: s) (simp_all add: run_events_Nil run_events_Cons run_state_Nil
      run_state_Cons)

lemma run_events_snoc:
  "run_events L (xs @ [x]) s = run_events L xs s @ [body_events L x (run_state L xs s)]"
  by (simp add: run_events_append run_events_Cons run_events_Nil)

lemma starts_of_snoc: "starts_of (evs @ [ev]) = starts_of evs + length (filter is_started ev)"
  by (simp add: starts_of_def)

lemma warm_init:
  assumes "Suc kFadeTime < L" "L < 4294967296"
  shows "warm L 1 (body_state L x (init_engine p)) \<and>
         filter is_started (body_events L x (init_engine p)) = [Started SegA 0 L]"
  using assms
  by (simp add: warm_def body_state_eq body_events_eq pre_trigger_def pre_retire_def pre_read_def
      phase_defs init_engine_def Let_def kFadeTime_val kBufferSize_val wrapDec_def size_wrap_id)

lemma warm_step:
  assumes "warm L n s" "Suc (n + kFadeTime) < L" "L < 4294967296" "0 < n" "Suc n < kBufferSize"
  shows "warm L (Suc n) (body_state L x s) \<and> filter is_started (body_events L x s) = []"
  using assms
  by (simp add: warm_def body_state_eq body_events_eq pre_trigger_def pre_retire_def pre_read_def
      phase_defs Let_def kFadeTime_val kBufferSize_val wrapDec_def size_wrap_id)

lemma warm_handoff:
  assumes "warm L n s" "Suc (n + kFadeTime) = L" "L < 4294967296" "0 < n" "Suc n < kBufferSize"
  shows "filter is_started (body_events L x s) = [Started SegB n L] \<and>
         \<not> startup (body_state L x s) \<and> fading (body_state L x s) \<and>
         fadeCount (body_state L x s) = 0"
  using assms
  by (simp add: warm_def body_state_eq body_events_eq pre_trigger_def pre_retire_def pre_read_def
      phase_defs Let_def kFadeTime_val kBufferSize_val wrapDec_def size_wrap_id)

lemma warm_run:
  assumes "L < 4294967296"
  shows "xs \<noteq> [] \<Longrightarrow> length xs + kFadeTime < L \<Longrightarrow> length xs < kBufferSize \<Longrightarrow>
         warm L (length xs) (run_state L xs (init_engine p)) \<and>
         starts_of (run_events L xs (init_engine p)) = 1"
proof (induction xs rule: rev_induct)
  case Nil
  then show ?case by simp
next
  case (snoc x ys)
  show ?case
  proof (cases "ys = []")
    case True
    with snoc.prems warm_init[of L x p] assms show ?thesis
      by (simp add: run_state_Cons run_state_Nil run_events_Cons run_events_Nil starts_of_def)
  next
    case False
    with snoc have IH: "warm L (length ys) (run_state L ys (init_engine p))"
      "starts_of (run_events L ys (init_engine p)) = 1"
      by simp_all
    from False have "0 < length ys" by simp
    with warm_step[OF IH(1), of x] snoc.prems assms IH(2) show ?thesis
      by (simp add: run_state_snoc run_events_snoc starts_of_snoc)
  qed
qed

lemma fading_no_start:
  assumes "\<not> startup s" "fading s" "fadeCount s < kFadeTime"
  shows "filter is_started (body_events L x s) = []"
  using assms
  by (simp add: body_events_eq startup_phase_done pre_trigger_def pre_read_def read_phase_eq
      fade_phase_def write_phase_def trigger_phase_def retire_no_start Let_def)

lemma body_starts_trigger:
  "\<not> startup s \<Longrightarrow>
   filter is_started (body_events L x s) =
     filter is_started (fst (trigger_phase L (pre_trigger L x s)))"
  by (simp add: body_events_eq startup_phase_done read_no_start retire_no_start)

lemma trigger_starts:
  "filter is_started (fst (trigger_phase L t)) =
     (if \<not> fading t \<and> len (lead t) \<le> size_wrap (played (lead t) + kFadeTime)
      then [Started (if aLag t then SegA else SegB) (writePos t) L] else [])"
  by (simp add: trigger_phase_def lead_def StartSegment_def)

lemma faded_lead:
  assumes "faded L t" "kFadeTime < L" "L < 4294967296"
  shows "active (lead t) \<and> len (lead t) = L \<and>
         (\<not> fading t \<longrightarrow> size_wrap (played (lead t) + kFadeTime) = played (lead t) + kFadeTime)"
  using assms by (auto simp: faded_def size_wrap_id kFadeTime_val)

lemma pre_trigger_frame:
  "\<not> startup s \<Longrightarrow>
   aLag (pre_trigger L x s) = aLag s \<and> writePos (pre_trigger L x s) = writePos s"
  by (simp add: pre_trigger_def pre_read_def startup_phase_done read_phase_eq fade_phase_def
      write_phase_def Let_def)

lemma trigger_fired_state:
  assumes "\<not> fading t" "len (lead t) \<le> size_wrap (played (lead t) + kFadeTime)"
  shows "fading (snd (trigger_phase L t)) \<and> fadeCount (snd (trigger_phase L t)) = fadeCount t \<and>
         fade (snd (trigger_phase L t)) = (if aLag t then 1 else 0) \<and>
         aLag (snd (trigger_phase L t)) = (\<not> aLag t) \<and>
         lead (snd (trigger_phase L t)) =
           \<lparr>head = writePos t, start = writePos t, len = L, played = 0, active = True\<rparr>"
  using assms
  by (cases "aLag t"; cases "segA t"; cases "segB t")
    (simp_all add: trigger_phase_def lead_def StartSegment_def)

lemma retire_frame:
  "fading (snd (retire_phase t)) = fading t \<and> fadeCount (snd (retire_phase t)) = fadeCount t \<and>
   fade (snd (retire_phase t)) = fade t \<and> aLag (snd (retire_phase t)) = aLag t \<and>
   fadeSwap (snd (retire_phase t)) = fadeSwap t"
  by (simp add: retire_phase_def Let_def)

lemma retire_lead:
  "played (lead t) < len (lead t) \<Longrightarrow> lead (snd (retire_phase t)) = lead t"
  by (cases "aLag t") (auto simp: retire_phase_def lead_def Let_def)

lemma advance_frame:
  "fading (advance_phase t) = fading t \<and> fadeCount (advance_phase t) = fadeCount t \<and>
   fade (advance_phase t) = fade t \<and> aLag (advance_phase t) = aLag t \<and>
   fadeSwap (advance_phase t) = fadeSwap t \<and> lead (advance_phase t) = lead t"
  by (simp add: advance_phase_def lead_def)

lemma steady_fading_swap: "steady L s \<Longrightarrow> fading s \<Longrightarrow> fadeSwap s = (\<not> aLag s)"
  by (auto simp: steady_def)

lemma steady_handoff:
  assumes "steady L s" "kFadeTime < L" "L < 4294967296"
  shows "active (lead (pre_trigger L x s)) \<and> len (lead (pre_trigger L x s)) = L \<and>
     (list_ex is_started (body_events L x s) \<longleftrightarrow>
        \<not> fading (pre_trigger L x s) \<and> L \<le> played (lead (pre_trigger L x s)) + kFadeTime) \<and>
     (list_ex is_started (body_events L x s) \<longrightarrow>
        filter is_started (body_events L x s) =
          [Started (if aLag s then SegA else SegB) (writePos s) L] \<and>
        fading (body_state L x s) \<and> fadeCount (body_state L x s) = 0 \<and>
        fade (body_state L x s) = (if fadeSwap (body_state L x s) then 1 else 0) \<and>
        aLag (body_state L x s) = (\<not> aLag s) \<and>
        lead (body_state L x s) =
          \<lparr>head = writePos s, start = writePos s, len = L, played = 0, active = True\<rparr>)"
proof -
  let ?t = "pre_trigger L x s"
  from assms(1) have ns: "\<not> startup s" by (simp add: steady_def)
  have ft: "faded L ?t" by (rule steady_pre_trigger[OF assms])
  note fl = faded_lead[OF ft assms(2,3)]
  have ex: "list_ex is_started (body_events L x s) \<longleftrightarrow>
            filter is_started (body_events L x s) \<noteq> []"
    by (simp add: list_ex_iff filter_empty_conv)
  have starts: "filter is_started (body_events L x s) =
     (if \<not> fading ?t \<and> L \<le> played (lead ?t) + kFadeTime
      then [Started (if aLag s then SegA else SegB) (writePos s) L] else [])"
    using fl by (auto simp: body_starts_trigger[OF ns] trigger_starts pre_trigger_frame[OF ns])
  have st': "steady L (body_state L x s)" by (rule steady_body[OF assms])
  have fired: "fading (body_state L x s) \<and> fadeCount (body_state L x s) = 0 \<and>
        fade (body_state L x s) = (if fadeSwap (body_state L x s) then 1 else 0) \<and>
        aLag (body_state L x s) = (\<not> aLag s) \<and>
        lead (body_state L x s) =
          \<lparr>head = writePos s, start = writePos s, len = L, played = 0, active = True\<rparr>"
    if c: "\<not> fading ?t" "L \<le> played (lead ?t) + kFadeTime"
  proof -
    from c fl have c2: "len (lead ?t) \<le> size_wrap (played (lead ?t) + kFadeTime)" by simp
    note tf = trigger_fired_state[OF c(1) c2, of L]
    from ft c(1) have fc: "fadeCount ?t = 0" by (simp add: faded_def)
    from assms(2) have "0 < L" by simp
    then have pl: "played (lead (pre_retire L x s)) < len (lead (pre_retire L x s))"
      using tf by (simp add: pre_retire_def)
    have a: "fading (body_state L x s)" "fadeCount (body_state L x s) = 0"
      "fade (body_state L x s) = (if aLag s then 1 else 0)"
      "aLag (body_state L x s) = (\<not> aLag s)"
      "lead (body_state L x s) =
          \<lparr>head = writePos s, start = writePos s, len = L, played = 0, active = True\<rparr>"
      using tf fc pre_trigger_frame[OF ns, of L x] retire_lead[OF pl]
      by (simp_all add: body_state_pre advance_frame retire_frame pre_retire_def[symmetric])
    from steady_fading_swap[OF st' a(1)] a show ?thesis by simp
  qed
  show ?thesis
    using fl starts fired unfolding ex by auto
qed

lemma scenario_first_handoff:
  assumes "length ys = 2399"
  shows "warm 12000 2399 (run_state 12000 ys (init_engine q)) \<and>
         filter is_started (body_events 12000 y (run_state 12000 ys (init_engine q))) =
           [Started SegB 2399 12000] \<and>
         starts_of (run_events 12000 (ys @ [y, z]) (init_engine q)) = 2"
proof -
  let ?s = "run_state 12000 ys (init_engine q)"
  from assms have ne: "ys \<noteq> []" by auto
  have w: "warm 12000 2399 ?s" and n1: "starts_of (run_events 12000 ys (init_engine q)) = 1"
    using warm_run[of 12000 ys q] ne assms by (simp_all add: kFadeTime_val kBufferSize_val)
  have h: "filter is_started (body_events 12000 y ?s) = [Started SegB 2399 12000]"
    "\<not> startup (body_state 12000 y ?s)" "fading (body_state 12000 y ?s)"
    "fadeCount (body_state 12000 y ?s) = 0"
    using warm_handoff[OF w, of y] by (simp_all add: kFadeTime_val kBufferSize_val)
  have z: "filter is_started (body_events 12000 z (body_state 12000 y ?s)) = []"
    by (rule fading_no_start) (simp_all add: h kFadeTime_val)
  have "ys @ [y, z] = (ys @ [y]) @ [z]" by simp
  then have "starts_of (run_events 12000 (ys @ [y, z]) (init_engine q)) = 2"
    using n1 h(1) z
    by (simp only: run_events_snoc starts_of_snoc run_state_snoc) simp
  with w h(1) show ?thesis by simp
qed

lemma scenario_before_handoff:
  assumes "ys \<noteq> []" "length ys < 2399"
  shows "filter is_started (body_events 12000 y (run_state 12000 ys (init_engine q))) = []"
proof -
  have w: "warm 12000 (length ys) (run_state 12000 ys (init_engine q))"
    using warm_run[of 12000 ys q] assms by (simp add: kFadeTime_val kBufferSize_val)
  from assms have "0 < length ys" by simp
  with warm_step[OF w, of y] assms show ?thesis
    by (simp add: kFadeTime_val kBufferSize_val)
qed

text \<open>
  C3, as the code has it. In a run with a delay length \<open>L\<close> above the fade window, the
  segment that the handoff test reads (the one the flag selects, which is the one started
  last) is active with length \<open>L\<close>, and a sample starts a segment exactly when, after its
  reads and its ramp update, no crossfade is in progress and that segment has played at least
  \<open>L - kFadeTime\<close> samples. The start puts the other segment at the write position with
  length \<open>L\<close>, nothing played, makes it the tested segment by flipping the flag, and begins
  a crossfade at the endpoint its ramp leaves from. With \<open>L = 12000\<close> the startup sample
  (global sample 0) has the startup start only, samples 1 to 2398 start nothing, sample 2399
  starts segment B at index 2399, and the first 2401 samples hold exactly two starts.
\<close>

theorem handoff_trigger:
  assumes "kFadeTime < L" "L < 2 ^ 32" "xs \<noteq> []" "s = run_state L xs (init_engine p)"
  shows "active (lead (pre_trigger L x s)) \<and> len (lead (pre_trigger L x s)) = L \<and>
     (list_ex is_started (body_events L x s) \<longleftrightarrow>
        \<not> fading (pre_trigger L x s) \<and> L \<le> played (lead (pre_trigger L x s)) + kFadeTime) \<and>
     (list_ex is_started (body_events L x s) \<longrightarrow>
        filter is_started (body_events L x s) =
          [Started (if aLag s then SegA else SegB) (writePos s) L] \<and>
        fading (body_state L x s) \<and> fadeCount (body_state L x s) = 0 \<and>
        fade (body_state L x s) = (if fadeSwap (body_state L x s) then 1 else 0) \<and>
        aLag (body_state L x s) = (\<not> aLag s) \<and>
        lead (body_state L x s) =
          \<lparr>head = writePos s, start = writePos s, len = L, played = 0, active = True\<rparr>) \<and>
     filter is_started (body_events 12000 y (init_engine q)) = [Started SegA 0 12000] \<and>
     (ys \<noteq> [] \<and> length ys < 2399 \<longrightarrow>
        filter is_started (body_events 12000 y (run_state 12000 ys (init_engine q))) = []) \<and>
     (length ys = 2399 \<longrightarrow>
        filter is_started (body_events 12000 y (run_state 12000 ys (init_engine q))) =
          [Started SegB 2399 12000] \<and>
        starts_of (run_events 12000 (ys @ [y, z]) (init_engine q)) = 2)"
proof -
  from assms have L: "L < 4294967296" by simp
  have st: "steady L s"
    unfolding assms(4) using assms(1) L assms(3) by (rule run_steady)
  have first: "filter is_started (body_events 12000 y (init_engine q)) = [Started SegA 0 12000]"
    using warm_init[of 12000 y q] by (simp add: kFadeTime_val)
  show ?thesis
    using steady_handoff[OF st assms(1) L, of x] first
      scenario_before_handoff[where ys = ys and y = y and q = q]
      scenario_first_handoff[where ys = ys and y = y and q = q and z = z]
    by simp
qed

lemma replicate_2400: "replicate 2400 (0::rat) = replicate 2399 0 @ [0]"
  using replicate_add[of 2399 1 "0::rat"] by simp

text \<open>
  With \<open>L = 12000\<close>: the sample processed after 2399 samples (global sample 2399) starts
  segment B, while segment B, the one not started last, is inactive; the sample after it
  (global sample 2400) starts nothing.
\<close>

theorem first_handoff_counterexample:
  "filter is_started
     (body_events 12000 0 (run_state 12000 (replicate 2399 0) (init_engine (1 / 2)))) =
     [Started SegB 2399 12000] \<and>
   \<not> active (segB (run_state 12000 (replicate 2399 0) (init_engine (1 / 2)))) \<and>
   filter is_started
     (body_events 12000 0 (run_state 12000 (replicate 2400 0) (init_engine (1 / 2)))) = []"
proof -
  let ?s = "run_state 12000 (replicate 2399 0) (init_engine (1 / 2))"
  have len: "length (replicate 2399 (0::rat)) = 2399" by simp
  note sc = scenario_first_handoff[OF len, where q = "1 / 2" and y = 0 and z = 0]
  from sc have w: "warm 12000 2399 ?s" by simp
  have h: "\<not> startup (body_state 12000 0 ?s)" "fading (body_state 12000 0 ?s)"
    "fadeCount (body_state 12000 0 ?s) = 0"
    using warm_handoff[OF w, of 0] by (simp_all add: kFadeTime_val kBufferSize_val)
  have z: "filter is_started (body_events 12000 0 (body_state 12000 0 ?s)) = []"
    by (rule fading_no_start) (simp_all add: h kFadeTime_val)
  from w have "\<not> active (segB ?s)" by (simp add: warm_def zero_segment_def)
  with sc z show ?thesis
    by (simp add: replicate_2400 run_state_snoc)
qed

theorem handoff_trigger_witness:
  "kFadeTime < 12000 \<and> (12000::nat) < 2 ^ 32 \<and> replicate 2399 (0::rat) \<noteq> [] \<and>
   length (replicate 2399 (0::rat)) = 2399 \<and>
   list_ex is_started
     (body_events 12000 0 (run_state 12000 (replicate 2399 0) (init_engine (1 / 2)))) \<and>
   fading (body_state 12000 0 (run_state 12000 (replicate 2399 0) (init_engine (1 / 2)))) \<and>
   lead (body_state 12000 0 (run_state 12000 (replicate 2399 0) (init_engine (1 / 2)))) =
     \<lparr>head = 2399, start = 2399, len = 12000, played = 0, active = True\<rparr> \<and>
   starts_of (run_events 12000 (replicate 2399 0 @ [0, 0]) (init_engine (1 / 2))) = 2"
proof -
  let ?s = "run_state 12000 (replicate 2399 0) (init_engine (1 / 2))"
  have len: "length (replicate 2399 (0::rat)) = 2399" by simp
  note sc = scenario_first_handoff[OF len, where q = "1 / 2" and y = 0 and z = 0]
  from sc have w: "writePos ?s = 2399" by (simp add: warm_def)
  from sc have "filter is_started (body_events 12000 0 ?s) \<noteq> []" by simp
  then have ex: "list_ex is_started (body_events 12000 0 ?s)"
    by (simp add: list_ex_iff filter_empty_conv)
  show ?thesis
    using handoff_trigger [where L = 12000 and xs = "replicate 2399 0" and s = ?s
        and p = "1 / 2" and x = 0 and y = 0 and q = "1 / 2" and ys = "replicate 2399 0" and z = 0]
      ex w
    by (simp add: kFadeTime_val)
qed

subsection \<open>The control globals\<close>

lemma startup_controls:
  "startup_phase L (set_controls d w f s) =
     (fst (startup_phase L s), set_controls d w f (snd (startup_phase L s)))"
  by (simp add: startup_phase_def set_controls_def StartSegment_def)

lemma read_controls:
  "read_phase (set_controls d w f s) =
     (fst (read_phase s), fst (snd (read_phase s)), set_controls d w f (snd (snd (read_phase s))))"
  by (simp add: read_phase_eq set_controls_def)

lemma fade_controls: "fade_phase (set_controls d w f s) = set_controls d w f (fade_phase s)"
  by (simp add: fade_phase_def set_controls_def Let_def)

lemma write_controls: "write_phase x (set_controls d w f s) = set_controls d w f (write_phase x s)"
  by (simp add: write_phase_def set_controls_def)

lemma trigger_controls:
  "trigger_phase L (set_controls d w f s) =
     (fst (trigger_phase L s), set_controls d w f (snd (trigger_phase L s)))"
  by (simp add: trigger_phase_def set_controls_def StartSegment_def)

lemma retire_controls:
  "retire_phase (set_controls d w f s) =
     (fst (retire_phase s), set_controls d w f (snd (retire_phase s)))"
  by (simp add: retire_phase_def set_controls_def Let_def)

lemma advance_controls: "advance_phase (set_controls d w f s) = set_controls d w f (advance_phase s)"
  by (simp add: advance_phase_def set_controls_def)

lemma controls_fields:
  "xfade_pos (set_controls d w f s) = xfade_pos s" "writePos (set_controls d w f s) = writePos s"
  by (simp_all add: set_controls_def)

lemma body_controls:
  "AudioSample_body L x (set_controls d w f s) =
     (body_out L x s, body_events L x s, set_controls d w f (body_state L x s))"
  by (simp add: AudioSample_body_def body_out_def body_events_def body_state_def
      startup_controls read_controls fade_controls write_controls trigger_controls
      retire_controls advance_controls controls_fields Let_def split: prod.splits)

lemma set_controls_again:
  "set_controls d w f (set_controls d' w' f' s) = set_controls d w f s"
  by (simp add: set_controls_def)

lemma set_controls_self:
  "set_controls (delayTimeSec s) (wetMix s) (feedback s) (clear_controls s) = s"
  by (simp add: set_controls_def clear_controls_def)

lemma clear_set_controls: "clear_controls (set_controls d w f s) = clear_controls s"
  by (simp add: clear_controls_def set_controls_again)

lemma AudioSample_controls:
  "AudioSample x s =
     (body_out 47760 x (clear_controls s), body_events 47760 x (clear_controls s),
      set_controls delayTimeSec_const (wetMix s) (feedback s)
        (body_state 47760 x (clear_controls s)))"
proof -
  have "s\<lparr>delayTimeSec := delayTimeSec_const\<rparr> =
        set_controls delayTimeSec_const (wetMix s) (feedback s) (clear_controls s)"
    by (simp add: set_controls_def clear_controls_def)
  then show ?thesis
    by (simp only: AudioSample_eq body_controls)
qed

lemma main_poll_clear: "clear_controls (main_poll adc s) = clear_controls s"
  by (cases adc) (simp add: main_poll_def clear_controls_def set_controls_def)

lemma polled_run_Cons:
  "fst (polled_run ((adc, x) # rest) s) =
     fst (AudioSample x (main_poll adc s)) #
     fst (polled_run rest (snd (snd (AudioSample x (main_poll adc s)))))"
  "snd (polled_run ((adc, x) # rest) s) =
     snd (polled_run rest (snd (snd (AudioSample x (main_poll adc s)))))"
  by (simp_all split: prod.splits)

lemma AudioCallback_Cons:
  "map snd (fst (AudioCallback (x # xs) s)) =
     fst (snd (AudioSample x s)) # map snd (fst (AudioCallback xs (snd (snd (AudioSample x s)))))"
  "map fst (fst (AudioCallback (x # xs) s)) =
     fst (AudioSample x s) # map fst (fst (AudioCallback xs (snd (snd (AudioSample x s)))))"
  "snd (AudioCallback (x # xs) s) = snd (AudioCallback xs (snd (snd (AudioSample x s))))"
  by (simp_all split: prod.splits)

lemma polled_run_clear:
  "map snd sched1 = map snd sched2 \<Longrightarrow> clear_controls s1 = clear_controls s2 \<Longrightarrow>
   fst (polled_run sched1 s1) = fst (polled_run sched2 s2) \<and>
   clear_controls (snd (polled_run sched1 s1)) = clear_controls (snd (polled_run sched2 s2))"
proof (induction sched1 arbitrary: sched2 s1 s2)
  case Nil
  then show ?case by simp
next
  case (Cons a rest)
  then obtain b rest2 where s2: "sched2 = b # rest2" by (cases sched2) auto
  obtain adc1 x where a: "a = (adc1, x)" by (cases a)
  obtain adc2 x2 where b: "b = (adc2, x2)" by (cases b)
  from Cons.prems(1) s2 a b have xx: "x2 = x" and rr: "map snd rest = map snd rest2" by simp_all
  have c: "clear_controls (main_poll adc1 s1) = clear_controls (main_poll adc2 s2)"
    by (simp add: main_poll_clear Cons.prems(2))
  let ?t1 = "snd (snd (AudioSample x (main_poll adc1 s1)))"
  let ?t2 = "snd (snd (AudioSample x (main_poll adc2 s2)))"
  have o: "fst (AudioSample x (main_poll adc1 s1)) = fst (AudioSample x (main_poll adc2 s2))"
    by (simp add: AudioSample_controls c)
  have t: "clear_controls ?t1 = clear_controls ?t2"
    by (simp add: AudioSample_controls c clear_set_controls)
  from Cons.IH[OF rr t] o show ?case
    by (simp only: s2 a b xx polled_run_Cons)
qed

subsection \<open>The length given to a segment start\<close>

lemma body_start_len:
  "list_all (\<lambda>e. case e of Started g i l \<Rightarrow> l = L | _ \<Rightarrow> True) (body_events L x s)"
  by (simp add: body_events_eq startup_phase_def read_phase_eq trigger_phase_def retire_phase_def
      StartSegment_def Let_def)

lemma delay_bounds:
  "kMinDelaySamps = 10080" "kMaxDelaySamps = 95520"
  by (simp_all add: kMinDelaySamps_def kMaxDelaySamps_def kFadeTime_val kBufferSize_val)

lemma start_len_ok_47760: "(case e of Started g i l \<Rightarrow> l = 47760 | _ \<Rightarrow> True) \<Longrightarrow> start_len_ok e"
  by (cases e) (simp_all add: delay_bounds)

lemma AudioSample_start_len: "list_all start_len_ok (fst (snd (AudioSample x s)))"
  using body_start_len[of 47760 x "clear_controls s"]
  by (simp add: AudioSample_controls list_all_iff start_len_ok_47760)

lemma AudioCallback_start_len:
  "list_all (list_all start_len_ok) (map snd (fst (AudioCallback xs s)))"
  by (induction xs arbitrary: s) (simp_all only: AudioCallback_Cons, simp_all add: AudioSample_start_len)

lemma AudioSample_start_len_exact:
  "list_all (\<lambda>e. case e of Started g i l \<Rightarrow> l = 47760 | _ \<Rightarrow> True) (fst (snd (AudioSample x s)))"
  by (simp add: AudioSample_controls body_start_len)

lemma AudioCallback_start_len_exact:
  "list_all (list_all (\<lambda>e. case e of Started g i l \<Rightarrow> l = 47760 | _ \<Rightarrow> True))
     (map snd (fst (AudioCallback xs s)))"
  by (induction xs arbitrary: s)
    (simp_all only: AudioCallback_Cons, simp_all add: AudioSample_start_len_exact)

lemma main_poll_set:
  "main_poll (adc0, adc1, adc2) s =
     set_controls (f32 (f32 (of_nat adc0) / 65536)) (f32 (f32 (of_nat adc1) / 65536))
       (f32 (f32 (of_nat adc2) / 65536)) s"
  by (simp add: main_poll_def set_controls_def)

lemma body_events_controls: "body_events L x (set_controls d w f s) = body_events L x s"
  by (simp add: body_events_def[of L x "set_controls d w f s"] body_controls)

lemma AudioSample_events: "fst (snd (AudioSample x s)) = body_events 47760 x s"
  by (simp add: AudioSample_controls clear_controls_def body_events_controls)

lemma AudioSample_events_polled:
  "fst (snd (AudioSample x (main_poll (adc0, adc1, adc2) s))) = fst (snd (AudioSample x s))"
  by (simp add: AudioSample_events main_poll_set body_events_controls)

text \<open>
  C1, as the code has it: nothing clamps the delay time. \<^verbatim>\<open>main\<close> stores the converter
  reading divided by 65536 as it is, and no sample reads it: whatever the state at the start
  of a block and whatever \<^verbatim>\<open>main\<close> has stored, every segment start of every sample
  receives the length 47760, the value of the constant expression of lines 103 and 104. That
  length lies between \<open>kMinDelaySamps\<close> and \<open>kMaxDelaySamps\<close>; the minimum is above the
  fade window and the maximum is the buffer size less the margin of 480.
\<close>

theorem delay_length_constant:
  "list_all (list_all (\<lambda>e. case e of Started g i l \<Rightarrow> l = 47760 | _ \<Rightarrow> True))
     (map snd (fst (AudioCallback xs s))) \<and>
   list_all (list_all start_len_ok) (map snd (fst (AudioCallback xs s))) \<and>
   kFadeTime < kMinDelaySamps \<and> kMaxDelaySamps + 480 = kBufferSize \<and>
   delayTimeSec (main_poll (adc0, adc1, adc2) s) = f32 (f32 (of_nat adc0) / 65536) \<and>
   fst (snd (AudioSample x (main_poll (adc0, adc1, adc2) s))) = fst (snd (AudioSample x s))"
proof -
  have "delayTimeSec (main_poll (adc0, adc1, adc2) s) = f32 (f32 (of_nat adc0) / 65536)"
    by (simp add: main_poll_def)
  then show ?thesis
    by (simp only: AudioSample_events_polled)
      (simp add: AudioCallback_start_len AudioCallback_start_len_exact delay_bounds kFadeTime_val
        kBufferSize_val)
qed

text \<open>
  With a converter reading of 0, the delay time accepted by \<^verbatim>\<open>main\<close> is 0 seconds, below
  the minimum; clamped to the guardrails it would give 10080 samples, but the segment started
  on the next sample has length 47760.
\<close>

theorem delay_time_not_clamped_counterexample:
  "delayTimeSec (main_poll (0, 0, 0) (init_engine (1 / 2))) = 0 \<and>
   size_of_float (f32 (delayTimeSec (main_poll (0, 0, 0) (init_engine (1 / 2))) * kSampleRate))
     < kMinDelaySamps \<and>
   clampSize
     (size_of_float (f32 (delayTimeSec (main_poll (0, 0, 0) (init_engine (1 / 2))) * kSampleRate)))
     kMinDelaySamps kMaxDelaySamps = 10080 \<and>
   filter is_started (fst (snd (AudioSample 0 (main_poll (0, 0, 0) (init_engine (1 / 2)))))) =
     [Started SegA 0 47760]"
proof -
  have d: "delayTimeSec (main_poll (0, 0, 0) (init_engine (1 / 2))) = 0"
    by (simp add: main_poll_def f32_zero)
  have "filter is_started (body_events 47760 0 (init_engine (1 / 2))) = [Started SegA 0 47760]"
    using warm_init[of 47760 0 "1 / 2"] by (simp add: kFadeTime_val)
  moreover have "fst (snd (AudioSample 0 (main_poll (0, 0, 0) (init_engine (1 / 2))))) =
      body_events 47760 0 (init_engine (1 / 2))"
    by (simp only: AudioSample_events_polled) (simp only: AudioSample_events)
  ultimately have "filter is_started
      (fst (snd (AudioSample 0 (main_poll (0, 0, 0) (init_engine (1 / 2)))))) =
      [Started SegA 0 47760]"
    by simp
  then show ?thesis
    by (simp add: d f32_zero size_of_float_def delay_bounds clampSize_def)
qed

subsection \<open>Silence\<close>

lemma buf_zero_iff: "buf_zero s = (\<forall>i<kBufferSize. delayBuffer s i = 0)"
  by (auto simp: buf_zero_def list_all_iff)

lemma zeroed_iff:
  "zeroed n s = (\<forall>i<kBufferSize. age (writePos s) i \<le> n \<longrightarrow> delayBuffer s i = 0)"
  by (auto simp: zeroed_def list_all_iff)

lemma startup_buffer:
  "delayBuffer (snd (startup_phase L s)) = delayBuffer s \<and>
   writePos (snd (startup_phase L s)) = writePos s \<and>
   xfade_pos (snd (startup_phase L s)) = xfade_pos s"
  by (simp add: startup_phase_def StartSegment_def)

lemma read_buffer:
  "delayBuffer (snd (snd (read_phase s))) = delayBuffer s \<and>
   writePos (snd (snd (read_phase s))) = writePos s"
  by (simp add: read_phase_eq)

lemma fade_buffer:
  "delayBuffer (fade_phase s) = delayBuffer s \<and> writePos (fade_phase s) = writePos s"
  by (simp add: fade_phase_def Let_def)

lemma trigger_buffer:
  "delayBuffer (snd (trigger_phase L s)) = delayBuffer s \<and>
   writePos (snd (trigger_phase L s)) = writePos s"
  by (simp add: trigger_phase_def StartSegment_def)

lemma retire_buffer:
  "delayBuffer (snd (retire_phase s)) = delayBuffer s \<and>
   writePos (snd (retire_phase s)) = writePos s"
  by (simp add: retire_phase_def Let_def)

lemma body_buffer:
  "delayBuffer (body_state L x s) = (delayBuffer s)(writePos s := x) \<and>
   writePos (body_state L x s) = (writePos s + 1) mod kBufferSize"
  by (simp add: body_state_pre pre_retire_def pre_trigger_def pre_read_def advance_phase_def
      write_phase_def retire_buffer trigger_buffer fade_buffer read_buffer startup_buffer)

lemma xfade_zero: "xfade_Process pos 0 0 = 0"
  by (simp add: xfade_Process_def f32_zero)

lemma body_out_eq:
  "body_out L x s =
     f32 (f64 (x + f64 (1 / 2 *
       xfade_Process (xfade_pos (fade_phase (snd (snd (read_phase (pre_read L s))))))
         (fst (fst (read_phase (pre_read L s)))) (snd (fst (read_phase (pre_read L s)))))))"
  by (simp add: body_out_def AudioSample_body_def pre_read_def Let_def split: prod.splits)

lemma read_zero:
  assumes "idx_ok s" "buf_zero s"
  shows "fst (read_phase s) = (0, 0)"
  using assms by (simp add: read_phase_eq idx_ok_def buf_zero_iff)

lemma pre_read_buf_zero: "buf_zero s \<Longrightarrow> buf_zero (pre_read L s)"
  by (simp add: buf_zero_iff pre_read_def startup_buffer)

lemma zero_body_out:
  assumes "idx_ok s" "buf_zero s"
  shows "body_out L 0 s = 0"
  by (simp add: body_out_eq read_zero[OF pre_read_idx[OF assms(1)] pre_read_buf_zero[OF assms(2)]]
      xfade_zero f64_zero f32_zero)

lemma zero_body_buf: "buf_zero s \<Longrightarrow> buf_zero (body_state L 0 s)"
  by (simp add: buf_zero_iff body_buffer)

lemma zero_run_outs:
  "idx_ok s \<Longrightarrow> buf_zero s \<Longrightarrow> run_outs L (replicate k 0) s = replicate k 0"
  by (induction k arbitrary: s)
    (simp_all add: run_outs_Nil run_outs_Cons zero_body_out zero_body_buf body_idx_ok)

lemma age_next:
  assumes "w < kBufferSize" "i < kBufferSize" "i \<noteq> w"
  shows "age ((w + 1) mod kBufferSize) i = Suc (age w i)"
proof (cases "Suc w = kBufferSize")
  case True
  then have "(w + 1) mod kBufferSize = 0" by simp
  with True assms show ?thesis by (auto simp: age_def)
next
  case False
  with assms(1) have "(w + 1) mod kBufferSize = Suc w" by simp
  with assms show ?thesis by (auto simp: age_def)
qed

lemma zeroed_step:
  assumes "writePos s < kBufferSize" "zeroed n s"
  shows "zeroed (Suc n) (body_state L 0 s)"
  unfolding zeroed_iff
proof (intro allI impI)
  fix i
  assume i: "i < kBufferSize" and a: "age (writePos (body_state L 0 s)) i \<le> Suc n"
  show "delayBuffer (body_state L 0 s) i = 0"
  proof (cases "i = writePos s")
    case True
    then show ?thesis by (simp add: body_buffer)
  next
    case False
    with a age_next[OF assms(1) i] have "age (writePos s) i \<le> n"
      by (simp add: body_buffer)
    with assms(2) i False show ?thesis
      by (simp add: zeroed_iff body_buffer)
  qed
qed

lemma zeroed_run:
  "idx_ok s \<Longrightarrow> zeroed m s \<Longrightarrow> zeroed (m + n) (run_state L (replicate n 0) s)"
proof (induction n arbitrary: s m)
  case 0
  then show ?case by (simp add: run_state_Nil)
next
  case (Suc n)
  from Suc.prems have w: "writePos s < kBufferSize" by (simp add: idx_ok_def)
  have "zeroed (Suc m + n) (run_state L (replicate n 0) (body_state L 0 s))"
    by (rule Suc.IH) (simp_all add: body_idx_ok Suc.prems zeroed_step[OF w])
  then show ?case by (simp add: run_state_Cons)
qed

lemma zeroed_0: "zeroed 0 s"
  by (auto simp: zeroed_iff age_def)

lemma zeroed_all:
  assumes "kBufferSize \<le> n" "writePos s < kBufferSize" "zeroed n s"
  shows "buf_zero s"
  unfolding buf_zero_iff
proof (intro allI impI)
  fix i
  assume "i < kBufferSize"
  moreover from this assms(1,2) have "age (writePos s) i \<le> n"
    by (auto simp: age_def)
  ultimately show "delayBuffer s i = 0"
    using assms(3) by (simp add: zeroed_iff)
qed

lemma flush_buf_zero:
  assumes "idx_ok s" "kBufferSize \<le> n"
  shows "buf_zero (run_state L (replicate n 0) s)"
proof -
  have "zeroed (0 + n) (run_state L (replicate n 0) s)"
    by (rule zeroed_run[OF assms(1) zeroed_0])
  moreover have "idx_ok (run_state L (replicate n 0) s)"
    by (rule run_idx_ok[OF assms(1)])
  ultimately show ?thesis
    using assms(2) by (intro zeroed_all[of n]) (simp_all add: idx_ok_def)
qed

lemma run_outs_append:
  "run_outs L (xs @ ys) s = run_outs L xs s @ run_outs L ys (run_state L xs s)"
  by (induction xs arbitrary: s)
    (simp_all add: run_outs_Nil run_outs_Cons run_state_Nil run_state_Cons)

lemma length_run_outs: "length (run_outs L xs s) = length xs"
  by (induction xs arbitrary: s) (simp_all add: run_outs_Nil run_outs_Cons)

lemma flush_outs:
  assumes "idx_ok s" "kBufferSize \<le> m"
  shows "drop m (run_outs L (replicate (m + k) 0) s) = replicate k 0"
proof -
  let ?t = "run_state L (replicate m 0) s"
  have "run_outs L (replicate (m + k) 0) s =
        run_outs L (replicate m 0) s @ run_outs L (replicate k 0) ?t"
    by (simp add: replicate_add run_outs_append)
  moreover have "run_outs L (replicate k 0) ?t = replicate k 0"
    by (intro zero_run_outs run_idx_ok flush_buf_zero assms)
  ultimately show ?thesis by (simp add: length_run_outs)
qed

lemma clear_clear: "clear_controls (clear_controls s) = clear_controls s"
  by (simp add: clear_controls_def set_controls_again)

lemma body_state_clear:
  "body_state L x (clear_controls s) = clear_controls (body_state L x s)"
  using body_controls[of L x 0 0 0 s]
  by (simp add: clear_controls_def body_state_def[of L x "set_controls 0 0 0 s"])

lemma AudioCallback_run:
  "map fst (fst (AudioCallback xs s)) = run_outs 47760 xs (clear_controls s) \<and>
   clear_controls (snd (AudioCallback xs s)) = run_state 47760 xs (clear_controls s)"
proof (induction xs arbitrary: s)
  case Nil
  then show ?case by (simp add: run_outs_Nil run_state_Nil)
next
  case (Cons x xs)
  have t: "clear_controls (snd (snd (AudioSample x s))) = body_state 47760 x (clear_controls s)"
    by (simp add: AudioSample_controls clear_set_controls body_state_clear clear_clear)
  show ?case
    using Cons.IH[of "snd (snd (AudioSample x s))"]
    by (simp only: AudioCallback_Cons run_outs_Cons run_state_Cons t)
      (simp add: AudioSample_controls)
qed

lemma clear_idx_ok: "idx_ok (clear_controls s) = idx_ok s"
  by (simp add: idx_ok_def clear_controls_def set_controls_def)

lemma clear_buf_zero: "buf_zero (clear_controls s) = buf_zero s"
  by (simp add: buf_zero_iff clear_controls_def set_controls_def)

text \<open>
  C10: from any state the program reaches, once more than \<open>2 * kMaxDelaySamps\<close> zero samples
  have been fed, every further output sample is zero for as long as the input stays zero;
  and from the initial state an all-zero input gives an all-zero output. Samples are finite
  values here, as everywhere in this model.
\<close>

theorem silence_in_silence_out:
  assumes "2 * kMaxDelaySamps < m"
  shows "drop m (map fst (fst (AudioCallback (replicate (m + k) 0)
                                 (snd (AudioCallback xs (init_engine p)))))) =
           replicate k 0 \<and>
         map fst (fst (AudioCallback (replicate n 0) (init_engine p))) = replicate n 0"
proof -
  let ?s = "snd (AudioCallback xs (init_engine p))"
  have "idx_ok (clear_controls ?s)"
    by (simp add: AudioCallback_run run_idx_ok clear_idx_ok init_idx_ok)
  moreover from assms have "kBufferSize \<le> m"
    by (simp add: delay_bounds kBufferSize_val)
  ultimately have a: "drop m (run_outs 47760 (replicate (m + k) 0) (clear_controls ?s)) =
      replicate k 0"
    by (rule flush_outs)
  have "buf_zero (init_engine p)"
    by (simp add: buf_zero_iff init_engine_def)
  then have b: "run_outs 47760 (replicate n 0) (clear_controls (init_engine p)) = replicate n 0"
    by (intro zero_run_outs) (simp_all add: clear_idx_ok clear_buf_zero init_idx_ok)
  from a b show ?thesis by (simp add: AudioCallback_run)
qed

theorem silence_in_silence_out_witness:
  "2 * kMaxDelaySamps < 191041 \<and>
   drop 191041 (map fst (fst (AudioCallback (replicate (191041 + 3) 0)
       (snd (AudioCallback [1 / 2, - 1] (init_engine (1 / 2))))))) = replicate 3 0"
proof -
  have h: "2 * kMaxDelaySamps < 191041" by (simp add: delay_bounds)
  from silence_in_silence_out [OF h, of 3 "[1 / 2, - 1]" "1 / 2" 0] h show ?thesis
    by (simp only: simp_thms)
qed

subsection \<open>No influence of the control globals\<close>

lemma AudioSample_buffer:
  "delayBuffer (snd (snd (AudioSample x s))) = (delayBuffer s)(writePos s := x) \<and>
   delayTimeSec (snd (snd (AudioSample x s))) = delayTimeSec_const"
  by (simp add: AudioSample_controls body_buffer set_controls_def clear_controls_def)

text \<open>
  C2: two runs of the program on the same input samples, from states that agree on everything
  but the three control globals, and with any converter readings polled by \<^verbatim>\<open>main\<close>
  before each sample, produce the same output samples. Each sample overwrites the delay time
  with the constant of line 103 and stores the raw input sample in the buffer.
\<close>

theorem controls_without_influence:
  assumes "map snd sched1 = map snd sched2" "clear_controls s1 = clear_controls s2"
  shows "fst (polled_run sched1 s1) = fst (polled_run sched2 s2) \<and>
         fst (AudioSample x s1) = fst (AudioSample x s2) \<and>
         delayTimeSec (snd (snd (AudioSample x s1))) = delayTimeSec_const \<and>
         delayBuffer (snd (snd (AudioSample x s1))) = (delayBuffer s1)(writePos s1 := x)"
proof -
  have "fst (AudioSample x s1) = fst (AudioSample x s2)"
    by (simp add: AudioSample_controls assms(2))
  with polled_run_clear[OF assms] AudioSample_buffer[of x s1] show ?thesis
    by simp
qed

theorem controls_without_influence_witness:
  "map snd [((0, 0, 0), 1 / 2 :: rat), ((0, 0, 0), 1 / 4)] =
     map snd [((65535, 1000, 40000), 1 / 2), ((7, 65535, 65535), 1 / 4)] \<and>
   clear_controls (init_engine (1 / 2)) = clear_controls (set_controls 0 1 1 (init_engine (1 / 2))) \<and>
   fst (polled_run [((0, 0, 0), 1 / 2), ((0, 0, 0), 1 / 4)] (init_engine (1 / 2))) =
   fst (polled_run [((65535, 1000, 40000), 1 / 2), ((7, 65535, 65535), 1 / 4)]
         (set_controls 0 1 1 (init_engine (1 / 2))))"
  using controls_without_influence
    [of "[((0, 0, 0), 1 / 2), ((0, 0, 0), 1 / 4)]"
        "[((65535, 1000, 40000), 1 / 2), ((7, 65535, 65535), 1 / 4)]" "init_engine (1 / 2)"
        "set_controls 0 1 1 (init_engine (1 / 2))"]
  by (simp add: clear_set_controls)

section \<open>The crossfade ramp\<close>

subsection \<open>Exact values of the rising ramp\<close>


















































subsection \<open>Bounds and monotonicity of the ramps\<close>








subsection \<open>The ramp in a run\<close>






















end
